theory Spec2Isabelle
  imports Main "HOL-Library.Word" "HOL-Library.AList"
begin

section \<open>JavaScript strings, JSON values and errors\<close>

text \<open>
  The analyzer (\<^verbatim>\<open>src/lib/contractAnalyzer.ts\<close>) works on JavaScript strings and on
  whatever \<^verbatim>\<open>JSON.parse\<close> returns. A JavaScript string is a sequence of UTF-16 code
  units; \<^verbatim>\<open>length\<close>, \<^verbatim>\<open>substring\<close>, \<^verbatim>\<open>slice\<close>, \<^verbatim>\<open>trim\<close> and a regular expression
  without the \<^verbatim>\<open>u\<close> flag all count code units, so a string is a list of 16-bit words.
\<close>

type_synonym codeunit = "16 word"
type_synonym jsstring = "codeunit list"

definition ascii :: "string \<Rightarrow> jsstring" where
  "ascii s = map (\<lambda>c. of_nat (of_char c)) s"

text \<open>
  A value read from parsed JSON, or \<^verbatim>\<open>undefined\<close> (what reading a missing property
  gives). The code never computes with a number: it copies numbers and tests them for
  truthiness, so the number type is a parameter \<open>'n\<close> with a zero. An object is the
  list of its own properties, read by key.
\<close>

datatype 'n jsval =
    JUndefined
  | JNull
  | JBool bool
  | JNum 'n
  | JStr jsstring
  | JArr "'n jsval list"
  | JObj "(jsstring \<times> 'n jsval) list"

text \<open>
  Error objects: an \<^verbatim>\<open>Error\<close> with its message (also standing for the instances of
  subclasses other than \<^verbatim>\<open>SyntaxError\<close> that the environment throws), a
  \<^verbatim>\<open>SyntaxError\<close> with its message, and the \<^verbatim>\<open>TypeError\<close> the language raises for a
  property read on \<^verbatim>\<open>undefined\<close>/\<^verbatim>\<open>null\<close> or a call of something that is not a function
  (its message is engine-specific). The environment can also throw a value that is
  not an \<^verbatim>\<open>Error\<close>; it is kept as its \<^verbatim>\<open>String(...)\<close> rendering.
\<close>

datatype jsError = Error jsstring | SyntaxError jsstring | TypeError

datatype thrown = ThrowError jsError | ThrowValue jsstring

text \<open>What the \<^verbatim>\<open>catch\<close> block of \<^verbatim>\<open>callGeminiAPI\<close> stores in \<^verbatim>\<open>lastError\<close> (lines 164-171).\<close>

fun caught :: "thrown \<Rightarrow> jsError" where
  "caught (ThrowError (SyntaxError m)) = SyntaxError m"
| "caught (ThrowError e) = e"
| "caught (ThrowValue s) = Error s"

text \<open>Truthiness, as \<^verbatim>\<open>!x\<close> tests it (\<^verbatim>\<open>JSON.parse\<close> never yields \<^verbatim>\<open>NaN\<close>).\<close>

fun truthy :: "('n::zero) jsval \<Rightarrow> bool" where
  "truthy JUndefined = False"
| "truthy JNull = False"
| "truthy (JBool b) = b"
| "truthy (JNum n) = (n \<noteq> 0)"
| "truthy (JStr s) = (s \<noteq> [])"
| "truthy (JArr xs) = True"
| "truthy (JObj ps) = True"

text \<open>
  \<^verbatim>\<open>v.k\<close> for a property name \<open>k\<close> that is neither an array index nor a member of a
  built-in prototype (the analyzer reads \<^verbatim>\<open>candidates\<close>, \<^verbatim>\<open>content\<close>, \<^verbatim>\<open>parts\<close>,
  \<^verbatim>\<open>text\<close>, \<^verbatim>\<open>flaggedClauses\<close>, \<^verbatim>\<open>clause\<close>, \<^verbatim>\<open>category\<close>, \<^verbatim>\<open>matchedText\<close>,
  \<^verbatim>\<open>position\<close>, \<^verbatim>\<open>summary\<close>, \<^verbatim>\<open>keyDetails\<close>, \<^verbatim>\<open>overallRiskScore\<close> and
  \<^verbatim>\<open>recommendations\<close>): a \<^verbatim>\<open>TypeError\<close> on \<^verbatim>\<open>undefined\<close> and \<^verbatim>\<open>null\<close>, the own property
  of an object, \<^verbatim>\<open>undefined\<close> otherwise.
\<close>

definition ownProperty :: "(jsstring \<times> 'n jsval) list \<Rightarrow> jsstring \<Rightarrow> 'n jsval" where
  "ownProperty ps k = (case map_of ps k of Some v \<Rightarrow> v | None \<Rightarrow> JUndefined)"

fun getField :: "'n jsval \<Rightarrow> jsstring \<Rightarrow> jsError + 'n jsval" where
  "getField JUndefined k = Inl TypeError"
| "getField JNull k = Inl TypeError"
| "getField (JObj ps) k = Inr (ownProperty ps k)"
| "getField v k = Inr JUndefined"

text \<open>\<^verbatim>\<open>v[0]\<close>: the first element of an array, the first code unit of a string, the
  property \<^verbatim>\<open>"0"\<close> of an object.\<close>

fun getIndex0 :: "'n jsval \<Rightarrow> jsError + 'n jsval" where
  "getIndex0 JUndefined = Inl TypeError"
| "getIndex0 JNull = Inl TypeError"
| "getIndex0 (JArr xs) = Inr (case xs of [] \<Rightarrow> JUndefined | x # _ \<Rightarrow> x)"
| "getIndex0 (JStr s) = Inr (case s of [] \<Rightarrow> JUndefined | c # _ \<Rightarrow> JStr [c])"
| "getIndex0 (JObj ps) = Inr (ownProperty ps (ascii ''0''))"
| "getIndex0 v = Inr JUndefined"

text \<open>The decimal rendering of a natural number (an array index as a property name,
  \<^verbatim>\<open>response.status\<close> inside a template literal).\<close>

function decimal :: "nat \<Rightarrow> jsstring" where
  "decimal n = (if n < 10 then [of_nat (48 + n)] else decimal (n div 10) @ [of_nat (48 + n mod 10)])"
  by pat_completeness auto
termination
  by (relation "measure id") auto

declare decimal.simps [simp del]

text \<open>The own enumerable properties an object spread \<^verbatim>\<open>{...v}\<close> copies.\<close>

fun ownProps :: "'n jsval \<Rightarrow> (jsstring \<times> 'n jsval) list" where
  "ownProps (JObj ps) = ps"
| "ownProps (JArr xs) = zip (map decimal [0..<length xs]) xs"
| "ownProps (JStr s) = zip (map decimal [0..<length s]) (map (\<lambda>c. JStr [c]) s)"
| "ownProps v = []"

text \<open>\<^verbatim>\<open>String.prototype.trim\<close>: white space and line terminators of ECMAScript.\<close>

definition isWhiteSpace :: "codeunit \<Rightarrow> bool" where
  "isWhiteSpace c =
     (c \<in> {0x9, 0xA, 0xB, 0xC, 0xD, 0x20, 0xA0, 0x1680, 0x2028, 0x2029, 0x202F, 0x205F, 0x3000, 0xFEFF}
      \<or> (0x2000 \<le> c \<and> c \<le> 0x200A))"

definition trim :: "jsstring \<Rightarrow> jsstring" where
  "trim s = rev (dropWhile isWhiteSpace (rev (dropWhile isWhiteSpace s)))"

section \<open>Extraction of the JSON payload (lines 155-160)\<close>

definition lbrace :: codeunit where
  "lbrace = 0x7B"

definition rbrace :: codeunit where
  "rbrace = 0x7D"

text \<open>
  \<^verbatim>\<open>responseText.match(/\{[\s\S]*\}/)\<close>. The engine tries each start position from the
  left; at a position holding \<^verbatim>\<open>{\<close> the greedy \<^verbatim>\<open>[\s\S]*\<close> takes everything and gives
  code units back until a \<^verbatim>\<open>}\<close> follows. \<open>greedyToBrace\<close> is that second part: the
  longest prefix of the rest that ends in \<^verbatim>\<open>}\<close>.
\<close>

fun greedyToBrace :: "jsstring \<Rightarrow> jsstring option" where
  "greedyToBrace [] = None"
| "greedyToBrace (c # cs) =
     (case greedyToBrace cs of
        Some m \<Rightarrow> Some (c # m)
      | None \<Rightarrow> if c = rbrace then Some [c] else None)"

fun matchBraces :: "jsstring \<Rightarrow> jsstring option" where
  "matchBraces [] = None"
| "matchBraces (c # cs) =
     (case (if c = lbrace then greedyToBrace cs else None) of
        Some m \<Rightarrow> Some (c # m)
      | None \<Rightarrow> matchBraces cs)"

definition jsonText :: "jsstring \<Rightarrow> jsstring" where
  "jsonText responseText = (case matchBraces responseText of Some m \<Rightarrow> m | None \<Rightarrow> responseText)"

section \<open>The environment: configuration, network and JSON built-ins\<close>

text \<open>
  A request is the URL and the prompt placed in the body; method, headers and
  generation parameters are the same constants in every call. A response carries
  \<^verbatim>\<open>ok\<close>, \<^verbatim>\<open>status\<close>, \<^verbatim>\<open>statusText\<close> and the outcome of \<^verbatim>\<open>response.json()\<close>.
  The environment supplies the API key (\<^verbatim>\<open>undefined\<close> or a string), \<^verbatim>\<open>fetch\<close>, and
  the built-ins \<^verbatim>\<open>JSON.parse\<close> (\<open>Inl\<close>: the message of its \<^verbatim>\<open>SyntaxError\<close>) and
  \<^verbatim>\<open>JSON.stringify\<close>.
\<close>

record request =
  url :: jsstring
  promptText :: jsstring

record 'n response =
  ok :: bool
  status :: nat
  statusText :: jsstring
  json :: "thrown + 'n jsval"

record 'n env =
  apiKey :: "jsstring option"
  fetch :: "request \<Rightarrow> thrown + 'n response"
  jsonParse :: "jsstring \<Rightarrow> jsstring + 'n jsval"
  jsonStringify :: "'n jsval \<Rightarrow> jsstring"

section \<open>callGeminiAPI (lines 60-176)\<close>

definition promptHead :: jsstring where
  \<open>promptHead = ascii
    (''Analyze this British Columbia residential tenancy agreement and return a JSON response with the following structure:\<newline>''
     @ ''\<newline>''
     @ ''{\<newline>''
     @ ''  "summary": "A brief summary of the contract (2-3 sentences)",\<newline>''
     @ ''  "keyDetails": [\<newline>''
     @ ''    {"label": "Monthly Rent", "value": "extracted value or 'N/A'", "category": "rent"},\<newline>''
     @ ''    {"label": "Security Deposit", "value": "extracted value or 'N/A'", "category": "security_deposit"},\<newline>''
     @ ''    {"label": "Lease Start Date", "value": "extracted value or 'N/A'", "category": "termination"},\<newline>''
     @ ''    {"label": "Lease End Date", "value": "extracted value or 'N/A'", "category": "termination"},\<newline>''
     @ ''    {"label": "Property Address", "value": "extracted value or 'N/A'", "category": "other"},\<newline>''
     @ ''    {"label": "Landlord Name", "value": "extracted value or 'N/A'", "category": "other"},\<newline>''
     @ ''    {"label": "Notice Period", "value": "extracted value or 'N/A'", "category": "termination"}\<newline>''
     @ ''  ],\<newline>''
     @ ''  "flaggedClauses": [\<newline>''
     @ ''    {\<newline>''
     @ ''      "clause": {\<newline>''
     @ ''        "id": "unique-id",\<newline>''
     @ ''        "category": "security_deposit|rent|termination|maintenance|privacy|pets|subletting|utilities|other",\<newline>''
     @ ''        "name": "Clause name",\<newline>''
     @ ''        "description": "Brief description",\<newline>''
     @ ''        "isMalicious": true/false,\<newline>''
     @ ''        "severity": "low|medium|high",\<newline>''
     @ ''        "legalReference": "BC RTA Section reference if applicable",\<newline>''
     @ ''        "explanation": "Why this clause is problematic or noteworthy"\<newline>''
     @ ''      },\<newline>''
     @ ''      "matchedText": "Exact text excerpt from the contract (max 300 chars)",\<newline>''
     @ ''      "position": 0\<newline>''
     @ ''    }\<newline>''
     @ ''  ],\<newline>''
     @ ''  "overallRiskScore": 0-100,\<newline>''
     @ ''  "recommendations": ["recommendation 1", "recommendation 2", "recommendation 3", "recommendation 4", "recommendation 5"]\<newline>''
     @ ''}\<newline>''
     @ ''\<newline>''
     @ ''Focus on identifying:\<newline>''
     @ ''1. Clauses that violate BC Residential Tenancy Act (illegal deposits, prohibited terms, etc.)\<newline>''
     @ ''2. Potentially problematic clauses that may be unenforceable\<newline>''
     @ ''3. Important details like rent, deposits, dates, notice periods\<newline>''
     @ ''4. Provide specific BC tenancy law references where applicable\<newline>''
     @ ''\<newline>''
     @ ''Contract text:\<newline>'')\<close>

definition promptTail :: jsstring where
  \<open>promptTail = ascii
    (''\<newline>''
     @ ''\<newline>''
     @ ''Return ONLY valid JSON, no other text.'')\<close>

definition buildPrompt :: "jsstring \<Rightarrow> jsstring" where
  "buildPrompt contractText = promptHead @ contractText @ promptTail"

definition endpoints :: "jsstring list" where
  "endpoints =
     [ascii ''https://generativelanguage.googleapis.com/v1beta/models/gemini-1.5-flash:generateContent'',
      ascii ''https://generativelanguage.googleapis.com/v1beta/models/gemini-1.5-pro:generateContent'',
      ascii ''https://generativelanguage.googleapis.com/v1/models/gemini-1.5-flash:generateContent'']"

definition endpointRequest :: "jsstring \<Rightarrow> jsstring \<Rightarrow> jsstring \<Rightarrow> request" where
  "endpointRequest k prompt endpoint = \<lparr>url = endpoint @ ascii ''?key='' @ k, promptText = prompt\<rparr>"

definition configMissing :: jsError where
  "configMissing = Error (ascii
     ''Gemini API key is not configured. Please set VITE_GEMINI_API_KEY in your environment variables.'')"

definition invalidFormat :: jsError where
  "invalidFormat = Error (ascii ''Invalid response format from Gemini API'')"

definition allFailed :: jsError where
  "allFailed = Error (ascii ''All Gemini API endpoints failed'')"

text \<open>The message built at line 142; \<^verbatim>\<open>errorData\<close> is \<^verbatim>\<open>{}\<close> when \<^verbatim>\<open>response.json()\<close> rejects.\<close>

definition apiErrorMessage :: "'n env \<Rightarrow> 'n response \<Rightarrow> jsstring" where
  "apiErrorMessage env r =
     ascii ''Gemini API error: '' @ decimal (status r) @ ascii '' '' @ statusText r @ ascii ''. ''
       @ jsonStringify env (case json r of Inl t \<Rightarrow> JObj [] | Inr errorData \<Rightarrow> errorData)"

text \<open>Line 153: \<^verbatim>\<open>content.parts[0].text.trim()\<close>, for the \<^verbatim>\<open>content\<close> found truthy at line 148.\<close>

definition responseText :: "'n jsval \<Rightarrow> jsError + jsstring" where
  "responseText content =
     (case getField content (ascii ''parts'') of
        Inl e \<Rightarrow> Inl e
      | Inr parts \<Rightarrow>
     (case getIndex0 parts of
        Inl e \<Rightarrow> Inl e
      | Inr part \<Rightarrow>
     (case getField part (ascii ''text'') of
        Inl e \<Rightarrow> Inl e
      | Inr t \<Rightarrow>
     (case t of JStr s \<Rightarrow> Inr (trim s) | _ \<Rightarrow> Inl TypeError))))"

text \<open>Lines 155-163: the extraction of the payload and \<^verbatim>\<open>JSON.parse\<close> of it.\<close>

definition parseResponseText :: "'n env \<Rightarrow> jsstring \<Rightarrow> jsError + 'n jsval" where
  "parseResponseText env txt =
     (case jsonParse env (jsonText txt) of
        Inl m \<Rightarrow> Inl (SyntaxError m)
      | Inr result \<Rightarrow> Inr result)"

text \<open>
  Lines 148-153: the check of the envelope (\<^verbatim>\<open>candidates\<close>, its first element and that
  element's \<^verbatim>\<open>content\<close> must be truthy) and the text of the first part.
\<close>

definition envelopeText :: "('n::zero) jsval \<Rightarrow> jsError + jsstring" where
  "envelopeText data =
     (case getField data (ascii ''candidates'') of
        Inl e \<Rightarrow> Inl e
      | Inr candidates \<Rightarrow>
     if \<not> truthy candidates then Inl invalidFormat
     else
     (case getIndex0 candidates of
        Inl e \<Rightarrow> Inl e
      | Inr candidate \<Rightarrow>
     if \<not> truthy candidate then Inl invalidFormat
     else
     (case getField candidate (ascii ''content'') of
        Inl e \<Rightarrow> Inl e
      | Inr content \<Rightarrow>
     if \<not> truthy content then Inl invalidFormat
     else responseText content)))"

text \<open>
  One pass of the loop body once \<^verbatim>\<open>fetch\<close> has resolved (lines 140-163). \<open>Inl e\<close>: the
  pass stores \<open>e\<close> in \<^verbatim>\<open>lastError\<close> and continues with the next endpoint; \<open>Inr v\<close>: the
  function returns \<open>v\<close>.
\<close>

definition handleResponse :: "('n::zero) env \<Rightarrow> 'n response \<Rightarrow> jsError + 'n jsval" where
  "handleResponse env r =
     (if \<not> ok r then Inl (Error (apiErrorMessage env r))
      else
     (case json r of
        Inl t \<Rightarrow> Inl (caught t)
      | Inr data \<Rightarrow>
     (case envelopeText data of
        Inl e \<Rightarrow> Inl e
      | Inr txt \<Rightarrow> parseResponseText env txt)))"

definition attempt :: "('n::zero) env \<Rightarrow> request \<Rightarrow> jsError + 'n jsval" where
  "attempt env req =
     (case fetch env req of
        Inl t \<Rightarrow> Inl (caught t)
      | Inr r \<Rightarrow> handleResponse env r)"

text \<open>
  The \<^verbatim>\<open>for\<close> loop over the endpoints with its \<^verbatim>\<open>lastError\<close> variable, and the final
  \<^verbatim>\<open>throw\<close> of line 175. The second component lists the requests issued, in order.
\<close>

fun tryEndpoints ::
  "('n::zero) env \<Rightarrow> jsstring \<Rightarrow> jsstring \<Rightarrow> jsstring list \<Rightarrow> jsError option
     \<Rightarrow> (jsError + 'n jsval) \<times> request list" where
  "tryEndpoints env k prompt [] lastError =
     (Inl (case lastError of Some e \<Rightarrow> e | None \<Rightarrow> allFailed), [])"
| "tryEndpoints env k prompt (endpoint # rest) lastError =
     (let req = endpointRequest k prompt endpoint in
      case attempt env req of
        Inr result \<Rightarrow> (Inr result, [req])
      | Inl e \<Rightarrow>
          (case tryEndpoints env k prompt rest (Some e) of
             (outcome, reqs) \<Rightarrow> (outcome, req # reqs)))"

definition callGeminiAPI ::
  "('n::zero) env \<Rightarrow> jsstring \<Rightarrow> (jsError + 'n jsval) \<times> request list" where
  "callGeminiAPI env contractText =
     (case apiKey env of
        None \<Rightarrow> (Inl configMissing, [])
      | Some k \<Rightarrow>
          if k = [] then (Inl configMissing, [])
          else tryEndpoints env k (buildPrompt contractText) endpoints None)"

section \<open>analyzeContract (lines 178-205)\<close>

definition maxLength :: nat where
  "maxLength = 50000"

definition truncationMarker :: jsstring where
  "truncationMarker = ascii ''\<newline>\<newline>[... contract truncated due to length ...]''"

definition truncatedText :: "jsstring \<Rightarrow> jsstring" where
  "truncatedText txt =
     (if length txt > maxLength then take maxLength txt @ truncationMarker else txt)"

record 'n AnalysisResult =
  summary :: "'n jsval"
  keyDetails :: "'n jsval"
  flaggedClauses :: "'n jsval list"
  overallRiskScore :: "'n jsval"
  recommendations :: "'n jsval"

text \<open>The callback of \<^verbatim>\<open>flaggedClauses.map\<close> (lines 188-196).\<close>

definition convertFlagged :: "'n jsval \<Rightarrow> jsError + 'n jsval" where
  "convertFlagged fc =
     (case getField fc (ascii ''clause'') of
        Inl e \<Rightarrow> Inl e
      | Inr cl \<Rightarrow>
     (case getField cl (ascii ''category'') of
        Inl e \<Rightarrow> Inl e
      | Inr cat \<Rightarrow>
     (case getField fc (ascii ''matchedText'') of
        Inl e \<Rightarrow> Inl e
      | Inr matched \<Rightarrow>
     (case getField fc (ascii ''position'') of
        Inl e \<Rightarrow> Inl e
      | Inr pos \<Rightarrow>
          Inr (JObj
            [(ascii ''clause'',
                JObj (AList.update (ascii ''category'') cat
                       (AList.update (ascii ''keywords'') (JArr []) (ownProps cl)))),
             (ascii ''matchedText'', matched),
             (ascii ''position'', pos)])))))"

fun mapE :: "('a \<Rightarrow> 'e + 'b) \<Rightarrow> 'a list \<Rightarrow> 'e + 'b list" where
  "mapE f [] = Inr []"
| "mapE f (x # xs) =
     (case f x of
        Inl e \<Rightarrow> Inl e
      | Inr y \<Rightarrow> (case mapE f xs of Inl e \<Rightarrow> Inl e | Inr ys \<Rightarrow> Inr (y # ys)))"

text \<open>\<^verbatim>\<open>v.map(f)\<close>: defined on arrays only; anything else has no callable \<^verbatim>\<open>map\<close>.\<close>

fun arrayMap :: "('n jsval \<Rightarrow> jsError + 'n jsval) \<Rightarrow> 'n jsval \<Rightarrow> jsError + 'n jsval list" where
  "arrayMap f (JArr xs) = mapE f xs"
| "arrayMap f v = Inl TypeError"

text \<open>\<^verbatim>\<open>v.slice(0, 5)\<close>: arrays and strings have \<^verbatim>\<open>slice\<close>; anything else has not.\<close>

fun slice05 :: "'n jsval \<Rightarrow> jsError + 'n jsval" where
  "slice05 (JArr xs) = Inr (JArr (take 5 xs))"
| "slice05 (JStr s) = Inr (JStr (take 5 s))"
| "slice05 v = Inl TypeError"

text \<open>Lines 187-204: the conversion of the parsed response into an \<^verbatim>\<open>AnalysisResult\<close>.\<close>

definition convertResponse :: "'n jsval \<Rightarrow> jsError + 'n AnalysisResult" where
  "convertResponse geminiResponse =
     (case getField geminiResponse (ascii ''flaggedClauses'') of
        Inl e \<Rightarrow> Inl e
      | Inr rawFlagged \<Rightarrow>
     (case arrayMap convertFlagged rawFlagged of
        Inl e \<Rightarrow> Inl e
      | Inr flagged \<Rightarrow>
     (case getField geminiResponse (ascii ''summary'') of
        Inl e \<Rightarrow> Inl e
      | Inr s \<Rightarrow>
     (case getField geminiResponse (ascii ''keyDetails'') of
        Inl e \<Rightarrow> Inl e
      | Inr kd \<Rightarrow>
     (case getField geminiResponse (ascii ''overallRiskScore'') of
        Inl e \<Rightarrow> Inl e
      | Inr score \<Rightarrow>
     (case getField geminiResponse (ascii ''recommendations'') of
        Inl e \<Rightarrow> Inl e
      | Inr recs \<Rightarrow>
     (case slice05 recs of
        Inl e \<Rightarrow> Inl e
      | Inr firstFive \<Rightarrow>
          Inr \<lparr>summary = s, keyDetails = kd, flaggedClauses = flagged,
               overallRiskScore = score, recommendations = firstFive\<rparr>)))))))"

text \<open>
  \<^verbatim>\<open>analyzeContract\<close>: truncation, the call of \<^verbatim>\<open>callGeminiAPI\<close> (whose rejection
  rejects \<^verbatim>\<open>analyzeContract\<close>: there is no \<^verbatim>\<open>try\<close> around it), the conversion.
\<close>

definition analyzeContract ::
  "('n::zero) env \<Rightarrow> jsstring \<Rightarrow> (jsError + 'n AnalysisResult) \<times> request list" where
  "analyzeContract env txt =
     (case callGeminiAPI env (truncatedText txt) of
        (Inl e, reqs) \<Rightarrow> (Inl e, reqs)
      | (Inr geminiResponse, reqs) \<Rightarrow> (convertResponse geminiResponse, reqs))"

section \<open>The clause taxonomy and the specification's reading of the extraction\<close>

text \<open>
  The members of the union types of \<^verbatim>\<open>ClausePattern\<close> (lines 23 and 28 of the source):
  the values \<^verbatim>\<open>category\<close> and \<^verbatim>\<open>severity\<close> are declared to have.
\<close>

definition categories :: "jsstring list" where
  "categories = map ascii
     [''security_deposit'', ''rent'', ''termination'', ''maintenance'', ''privacy'', ''pets'',
      ''subletting'', ''utilities'', ''other'']"

definition severities :: "jsstring list" where
  "severities = map ascii [''low'', ''medium'', ''high'']"

text \<open>
  The specification's words for the payload extraction, to be compared with
  \<open>matchBraces\<close>: the first brace-delimited object found in the text, that is the
  text from the first \<^verbatim>\<open>{\<close> that gets closed up to the \<^verbatim>\<open>}\<close> that balances it.
  \<open>closeAt d cs\<close> is the prefix of \<open>cs\<close> that closes \<open>d + 1\<close> open braces.
\<close>

fun closeAt :: "nat \<Rightarrow> jsstring \<Rightarrow> jsstring option" where
  "closeAt d [] = None"
| "closeAt d (c # cs) =
     (if c = rbrace then (case d of 0 \<Rightarrow> Some [c] | Suc d' \<Rightarrow> map_option ((#) c) (closeAt d' cs))
      else if c = lbrace then map_option ((#) c) (closeAt (Suc d) cs)
      else map_option ((#) c) (closeAt d cs))"

fun spec_firstBraceObject :: "jsstring \<Rightarrow> jsstring option" where
  "spec_firstBraceObject [] = None"
| "spec_firstBraceObject (c # cs) =
     (case (if c = lbrace then closeAt 0 cs else None) of
        Some m \<Rightarrow> Some (c # m)
      | None \<Rightarrow> spec_firstBraceObject cs)"

text \<open>
  The specification's words for a successful endpoint, to be compared with the loop
  body \<open>attempt\<close>. The response carries the expected envelope around the text \<open>s\<close>
  when its \<^verbatim>\<open>candidates\<close>, the first candidate and that candidate's \<^verbatim>\<open>content\<close> are
  present and the first of the content's \<^verbatim>\<open>parts\<close> holds the string \<open>s\<close> as its
  \<^verbatim>\<open>text\<close>. An endpoint yields the parse \<open>v\<close> when the request is answered with a
  success status, the body is JSON with that envelope, and the payload extracted
  from the trimmed text parses to \<open>v\<close>. Every other outcome is a failure of the
  endpoint: a transport error, an error status, a body that is not JSON, a missing
  envelope, or a payload that does not parse.
\<close>

definition spec_envelope :: "('n::zero) jsval \<Rightarrow> jsstring \<Rightarrow> bool" where
  "spec_envelope data s \<longleftrightarrow>
     (\<exists>candidates candidate content parts part.
        getField data (ascii ''candidates'') = Inr candidates \<and> truthy candidates
        \<and> getIndex0 candidates = Inr candidate \<and> truthy candidate
        \<and> getField candidate (ascii ''content'') = Inr content \<and> truthy content
        \<and> getField content (ascii ''parts'') = Inr parts
        \<and> getIndex0 parts = Inr part
        \<and> getField part (ascii ''text'') = Inr (JStr s))"

definition spec_yieldsParse :: "('n::zero) env \<Rightarrow> request \<Rightarrow> 'n jsval \<Rightarrow> bool" where
  "spec_yieldsParse env req v \<longleftrightarrow>
     (\<exists>r data s.
        fetch env req = Inr r \<and> ok r \<and> json r = Inr data \<and> spec_envelope data s
        \<and> jsonParse env (jsonText (trim s)) = Inr v)"

section \<open>Sample responses and environments\<close>

text \<open>
  Concrete inputs on which the properties below are evaluated. Numbers are integers
  here. \<open>sampleResponse\<close> is a complete parsed response with a given score and
  recommendation list; \<open>bareResponse\<close> has neither \<^verbatim>\<open>summary\<close> nor
  \<^verbatim>\<open>overallRiskScore\<close>; \<open>bogusFlagged\<close> is a flagged clause whose category and severity
  are outside the taxonomy, \<open>bogusConverted\<close> what the conversion makes of it.
\<close>

definition sampleResponse :: "int jsval \<Rightarrow> int jsval \<Rightarrow> int jsval" where
  "sampleResponse score recs =
     JObj [(ascii ''summary'', JStr (ascii ''One-year lease'')),
           (ascii ''keyDetails'', JArr []),
           (ascii ''flaggedClauses'', JArr []),
           (ascii ''overallRiskScore'', score),
           (ascii ''recommendations'', recs)]"

definition bareResponse :: "int jsval" where
  "bareResponse = JObj [(ascii ''flaggedClauses'', JArr []), (ascii ''recommendations'', JArr [])]"

definition bogusFlagged :: "int jsval" where
  "bogusFlagged =
     JObj [(ascii ''clause'',
              JObj [(ascii ''id'', JStr (ascii ''c1'')),
                    (ascii ''category'', JStr (ascii ''bogus_category'')),
                    (ascii ''severity'', JStr (ascii ''extreme''))]),
           (ascii ''matchedText'', JStr (ascii ''Tenant waives all rights'')),
           (ascii ''position'', JNum 0)]"

definition bogusConverted :: "int jsval" where
  "bogusConverted =
     JObj [(ascii ''clause'',
              JObj [(ascii ''id'', JStr (ascii ''c1'')),
                    (ascii ''category'', JStr (ascii ''bogus_category'')),
                    (ascii ''severity'', JStr (ascii ''extreme'')),
                    (ascii ''keywords'', JArr [])]),
           (ascii ''matchedText'', JStr (ascii ''Tenant waives all rights'')),
           (ascii ''position'', JNum 0)]"

definition bogusResponse :: "int jsval" where
  "bogusResponse =
     JObj [(ascii ''flaggedClauses'', JArr [bogusFlagged]), (ascii ''recommendations'', JArr [])]"

definition eightRecs :: "int jsval list" where
  "eightRecs = map (\<lambda>s. JStr (ascii s)) [''r1'', ''r2'', ''r3'', ''r4'', ''r5'', ''r6'', ''r7'', ''r8'']"

text \<open>
  \<open>envelope t\<close> is a response body whose first candidate holds the text \<open>t\<close>.
  \<open>demoParse\<close> agrees with \<^verbatim>\<open>JSON.parse\<close> on every text it is applied to below: it
  parses \<^verbatim>\<open>{}\<close> and rejects texts that are not JSON. In \<open>offlineEnv\<close> every \<^verbatim>\<open>fetch\<close>
  is rejected; in \<open>proseEnv\<close> the first endpoint is unreachable, the second answers
  with JSON wrapped in prose and the third with plain JSON; in \<open>failingEnv\<close> the first
  endpoint is unreachable, the second answers 503 and the third answers with prose
  that holds no JSON.
\<close>

definition envelope :: "jsstring \<Rightarrow> int jsval" where
  "envelope t =
     JObj [(ascii ''candidates'',
        JArr [JObj [(ascii ''content'',
          JObj [(ascii ''parts'', JArr [JObj [(ascii ''text'', JStr t)]])])]])]"

definition demoParse :: "jsstring \<Rightarrow> jsstring + int jsval" where
  "demoParse s = (if s = ascii ''{}'' then Inr (JObj []) else Inl (ascii ''Unexpected token''))"

definition demoUrl :: "nat \<Rightarrow> jsstring" where
  "demoUrl i = endpoints ! i @ ascii ''?key=k''"

definition offlineEnv :: "int env" where
  "offlineEnv =
     \<lparr>apiKey = Some (ascii ''k''),
      fetch = (\<lambda>req. Inl (ThrowError (Error (ascii ''Failed to fetch'')))),
      jsonParse = demoParse,
      jsonStringify = (\<lambda>v. ascii ''{}'')\<rparr>"

definition proseEnv :: "int env" where
  "proseEnv =
     \<lparr>apiKey = Some (ascii ''k''),
      fetch = (\<lambda>req.
        if url req = demoUrl 0 then Inl (ThrowError (Error (ascii ''Failed to fetch'')))
        else if url req = demoUrl 1 then
          Inr \<lparr>ok = True, status = 200, statusText = ascii ''OK'',
               json = Inr (envelope (ascii ''Here is the result:\<newline>{}\<newline>''))\<rparr>
        else
          Inr \<lparr>ok = True, status = 200, statusText = ascii ''OK'',
               json = Inr (envelope (ascii ''{}''))\<rparr>),
      jsonParse = demoParse,
      jsonStringify = (\<lambda>v. ascii ''{}'')\<rparr>"

definition failingEnv :: "int env" where
  "failingEnv =
     \<lparr>apiKey = Some (ascii ''k''),
      fetch = (\<lambda>req.
        if url req = demoUrl 0 then Inl (ThrowError (Error (ascii ''Failed to fetch'')))
        else if url req = demoUrl 1 then
          Inr \<lparr>ok = False, status = 503, statusText = ascii ''Service Unavailable'',
               json = Inl (ThrowError (SyntaxError (ascii ''Unexpected end of JSON input'')))\<rparr>
        else
          Inr \<lparr>ok = True, status = 200, statusText = ascii ''OK'',
               json = Inr (envelope (ascii ''I cannot analyze this.''))\<rparr>),
      jsonParse = demoParse,
      jsonStringify = (\<lambda>v. ascii ''{}'')\<rparr>"

section \<open>The endpoint loop\<close>

text \<open>Every request issued carries the prompt the loop was started with.\<close>

lemma tryEndpoints_prompt:
  "tryEndpoints env k p eps le = (out, reqs) \<Longrightarrow> req \<in> set reqs \<Longrightarrow> promptText req = p"
proof (induction eps arbitrary: le out reqs)
  case Nil
  then show ?case by simp
next
  case (Cons ep eps)
  show ?case
  proof (cases "attempt env (endpointRequest k p ep)")
    case (Inr v)
    with Cons.prems show ?thesis by (auto simp: endpointRequest_def)
  next
    case (Inl e)
    obtain out' reqs' where rest: "tryEndpoints env k p eps (Some e) = (out', reqs')"
      by (cases "tryEndpoints env k p eps (Some e)")
    with Inl Cons.prems have "reqs = endpointRequest k p ep # reqs'" by auto
    with Cons.prems(2) Cons.IH[OF rest] show ?thesis by (auto simp: endpointRequest_def)
  qed
qed

text \<open>
  The loop stops at the first endpoint whose pass returns; when every pass fails it
  visits every endpoint and ends with the error of the last pass; and it cannot end
  with an error in any other way.
\<close>

lemma tryEndpoints_first_success:
  assumes "\<forall>e\<in>set pre. isl (attempt env (endpointRequest k p e))"
      and "attempt env (endpointRequest k p ep) = Inr v"
  shows "tryEndpoints env k p (pre @ ep # post) le
           = (Inr v, map (endpointRequest k p) (pre @ [ep]))"
  using assms
  by (induction pre arbitrary: le) (auto simp: Let_def isl_def split: sum.splits prod.splits)

lemma tryEndpoints_all_fail:
  assumes "\<forall>e\<in>set eps. isl (attempt env (endpointRequest k p e))"
  shows "tryEndpoints env k p eps le
           = (Inl (if eps = [] then (case le of Some e \<Rightarrow> e | None \<Rightarrow> allFailed)
                   else projl (attempt env (endpointRequest k p (last eps)))),
              map (endpointRequest k p) eps)"
  using assms
  by (induction eps arbitrary: le) (auto simp: Let_def isl_def split: sum.splits prod.splits)

lemma tryEndpoints_Inl:
  "tryEndpoints env k p eps le = (Inl err, reqs) \<Longrightarrow>
     (\<forall>e\<in>set eps. isl (attempt env (endpointRequest k p e)))
     \<and> reqs = map (endpointRequest k p) eps"
proof (induction eps arbitrary: le reqs)
  case Nil
  then show ?case by simp
next
  case (Cons ep eps)
  show ?case
  proof (cases "attempt env (endpointRequest k p ep)")
    case (Inr v)
    with Cons.prems show ?thesis by simp
  next
    case (Inl e)
    obtain out' reqs' where rest: "tryEndpoints env k p eps (Some e) = (out', reqs')"
      by (cases "tryEndpoints env k p eps (Some e)")
    with Inl Cons.prems have "out' = Inl err" "reqs = endpointRequest k p ep # reqs'" by auto
    with Cons.IH[of "Some e" reqs'] rest Inl show ?thesis by simp
  qed
qed

lemma analyzeContract_requests:
  "snd (analyzeContract env txt) = snd (callGeminiAPI env (truncatedText txt))"
  by (simp add: analyzeContract_def split: prod.splits sum.splits)

lemma callGeminiAPI_prompt:
  "req \<in> set (snd (callGeminiAPI env txt)) \<Longrightarrow> promptText req = buildPrompt txt"
  by (cases "tryEndpoints env (the (apiKey env)) (buildPrompt txt) endpoints None")
     (auto simp: callGeminiAPI_def split: option.splits if_splits dest: tryEndpoints_prompt)

text \<open>A pass returns only for a successful response whose extracted payload parses.\<close>

lemma attempt_Inr:
  assumes "attempt env req = Inr v"
  shows "\<exists>r data t. fetch env req = Inr r \<and> ok r \<and> json r = Inr data
           \<and> envelopeText data = Inr t \<and> jsonParse env (jsonText t) = Inr v"
  using assms
  by (auto simp: attempt_def handleResponse_def parseResponseText_def split: sum.splits if_splits)

text \<open>
  The pass returns exactly when the endpoint yields a parse, in the specification's
  words, and it returns that parse; it fails exactly when the endpoint yields none.
\<close>

lemma responseText_iff:
  "responseText content = Inr t \<longleftrightarrow>
     (\<exists>parts part s. getField content (ascii ''parts'') = Inr parts \<and> getIndex0 parts = Inr part
        \<and> getField part (ascii ''text'') = Inr (JStr s) \<and> t = trim s)"
  by (auto simp: responseText_def split: sum.splits jsval.splits)

lemma envelopeText_iff:
  "envelopeText data = Inr t \<longleftrightarrow> (\<exists>s. spec_envelope data s \<and> t = trim s)"
  unfolding envelopeText_def spec_envelope_def
  by (auto simp: responseText_iff split: sum.splits if_splits)

lemma attempt_iff: "attempt env req = Inr v \<longleftrightarrow> spec_yieldsParse env req v"
proof
  assume "attempt env req = Inr v"
  then obtain r data t where "fetch env req = Inr r" "ok r" "json r = Inr data"
    "envelopeText data = Inr t" "jsonParse env (jsonText t) = Inr v"
    using attempt_Inr by blast
  then show "spec_yieldsParse env req v"
    unfolding spec_yieldsParse_def envelopeText_iff by blast
next
  assume "spec_yieldsParse env req v"
  then obtain r data s where r: "fetch env req = Inr r" "ok r" "json r = Inr data"
    and s: "spec_envelope data s" and v: "jsonParse env (jsonText (trim s)) = Inr v"
    unfolding spec_yieldsParse_def by blast
  from s have "envelopeText data = Inr (trim s)"
    unfolding envelopeText_iff by blast
  with r v show "attempt env req = Inr v"
    by (simp add: attempt_def handleResponse_def parseResponseText_def)
qed

lemma attempt_fails_iff: "isl (attempt env req) \<longleftrightarrow> (\<forall>v. \<not> spec_yieldsParse env req v)"
proof -
  have "isl (attempt env req) \<longleftrightarrow> (\<forall>v. attempt env req \<noteq> Inr v)"
    by (cases "attempt env req") auto
  then show ?thesis by (simp add: attempt_iff)
qed

lemma spec_yieldsParseI:
  "fetch env req = Inr r \<Longrightarrow> ok r \<Longrightarrow> json r = Inr data \<Longrightarrow> spec_envelope data s
     \<Longrightarrow> jsonParse env (jsonText (trim s)) = Inr v \<Longrightarrow> spec_yieldsParse env req v"
  by (auto simp: spec_yieldsParse_def)

text \<open>The kinds of failure: transport, status, body, envelope and parse.\<close>

lemma spec_failure_kinds:
  "fetch env req = Inl t \<Longrightarrow> \<not> spec_yieldsParse env req v"
  "fetch env req = Inr r \<Longrightarrow> \<not> ok r \<Longrightarrow> \<not> spec_yieldsParse env req v"
  "fetch env req = Inr r \<Longrightarrow> json r = Inl t \<Longrightarrow> \<not> spec_yieldsParse env req v"
  "fetch env req = Inr r \<Longrightarrow> json r = Inr data \<Longrightarrow> \<forall>s. \<not> spec_envelope data s
     \<Longrightarrow> \<not> spec_yieldsParse env req v"
  "fetch env req = Inr r \<Longrightarrow> json r = Inr data \<Longrightarrow> spec_envelope data s
     \<Longrightarrow> jsonParse env (jsonText (trim s)) = Inl m \<Longrightarrow> \<not> spec_yieldsParse env req v"
  by (auto simp: spec_yieldsParse_def spec_envelope_def)

text \<open>\<^verbatim>\<open>trim\<close> removes the white space around a text and nothing else.\<close>

lemma dropWhile_all: "\<forall>x\<in>set ws. P x \<Longrightarrow> dropWhile P (ws @ xs) = dropWhile P xs"
  by (induction ws) auto

lemma trim_strips:
  assumes "\<forall>c\<in>set before. isWhiteSpace c" and "\<forall>c\<in>set after. isWhiteSpace c"
      and "\<not> isWhiteSpace a" and "\<not> isWhiteSpace b"
  shows "trim (before @ a # mid @ b # after) = a # mid @ [b]"
        "trim (before @ a # after) = [a]"
        "trim before = []"
proof -
  have r: "\<forall>c\<in>set (rev after). isWhiteSpace c"
    using assms(2) by simp
  show "trim (before @ a # mid @ b # after) = a # mid @ [b]"
    using assms(3,4) by (simp add: trim_def dropWhile_all [OF assms(1)] dropWhile_all [OF r])
  show "trim (before @ a # after) = [a]"
    using assms(3) by (simp add: trim_def dropWhile_all [OF assms(1)] dropWhile_all [OF r])
  have e: "dropWhile isWhiteSpace before = []"
    using dropWhile_all [OF assms(1), of "[]"] by simp
  show "trim before = []"
    unfolding trim_def e by simp
qed

section \<open>The regular expression\<close>

text \<open>
  The greedy part finds the last \<^verbatim>\<open>}\<close>; the search starts at the first \<^verbatim>\<open>{\<close>; there is
  no match when no \<^verbatim>\<open>{\<close> is followed by a \<^verbatim>\<open>}\<close>.
\<close>

lemma greedy_None: "greedyToBrace cs = None \<longleftrightarrow> rbrace \<notin> set cs"
  by (induction cs) (auto split: option.splits)

lemma greedy_no_rbrace [simp]: "rbrace \<notin> set cs \<Longrightarrow> greedyToBrace cs = None"
  by (simp add: greedy_None)

lemma greedy_last:
  "rbrace \<notin> set post \<Longrightarrow> greedyToBrace (mid @ rbrace # post) = Some (mid @ [rbrace])"
  by (induction mid) auto

lemma matchBraces_no_rbrace: "rbrace \<notin> set cs \<Longrightarrow> matchBraces cs = None"
  by (induction cs) auto

lemma matchBraces_skip: "lbrace \<notin> set pre \<Longrightarrow> matchBraces (pre @ s) = matchBraces s"
  by (induction pre) auto

lemma matchBraces_first_last:
  assumes "lbrace \<notin> set pre" "rbrace \<notin> set post"
  shows "matchBraces (pre @ lbrace # mid @ rbrace # post) = Some (lbrace # mid @ [rbrace])"
  using assms by (simp add: matchBraces_skip greedy_last)

lemma matchBraces_none:
  assumes "\<not> (\<exists>i j. i < j \<and> j < length s \<and> s ! i = lbrace \<and> s ! j = rbrace)"
  shows "matchBraces s = None"
  using assms
proof (induction s)
  case Nil
  then show ?case by simp
next
  case (Cons c cs)
  have tail: "\<not> (\<exists>i j. i < j \<and> j < length cs \<and> cs ! i = lbrace \<and> cs ! j = rbrace)"
  proof
    assume "\<exists>i j. i < j \<and> j < length cs \<and> cs ! i = lbrace \<and> cs ! j = rbrace"
    then obtain i j where "i < j" "j < length cs" "cs ! i = lbrace" "cs ! j = rbrace" by blast
    then have "Suc i < Suc j \<and> Suc j < length (c # cs) \<and> (c # cs) ! Suc i = lbrace \<and> (c # cs) ! Suc j = rbrace"
      by simp
    with Cons.prems show False by blast
  qed
  show ?case
  proof (cases "c = lbrace")
    case True
    have "rbrace \<notin> set cs"
    proof
      assume "rbrace \<in> set cs"
      then obtain j where "j < length cs" "cs ! j = rbrace" by (auto simp: in_set_conv_nth)
      then have "0 < Suc j \<and> Suc j < length (c # cs) \<and> (c # cs) ! 0 = lbrace \<and> (c # cs) ! Suc j = rbrace"
        using True by simp
      with Cons.prems show False by blast
    qed
    then show ?thesis using True by (simp add: matchBraces_no_rbrace)
  next
    case False
    then show ?thesis using Cons.IH[OF tail] by simp
  qed
qed

lemma no_rbrace_no_pair:
  "rbrace \<notin> set s \<Longrightarrow> \<not> (\<exists>i j. i < j \<and> j < length s \<and> s ! i = lbrace \<and> s ! j = rbrace)"
  by (metis nth_mem)

text \<open>A text in which some \<^verbatim>\<open>{\<close> is followed by a \<^verbatim>\<open>}\<close> splits at its first \<^verbatim>\<open>{\<close> and its last
  \<^verbatim>\<open>}\<close>.\<close>

lemma brace_pair_split:
  assumes "i < j" and "j < length s" and "s ! i = lbrace" and "s ! j = rbrace"
  shows "\<exists>pre mid post. s = pre @ lbrace # mid @ rbrace # post
           \<and> lbrace \<notin> set pre \<and> rbrace \<notin> set post"
proof -
  from assms have "lbrace \<in> set s"
    by (metis less_trans nth_mem)
  then obtain pre rest where s: "s = pre @ lbrace # rest" and pre: "lbrace \<notin> set pre"
    by (auto dest: split_list_first)
  have "length pre \<le> i"
  proof (rule ccontr)
    assume "\<not> length pre \<le> i"
    then have "i < length pre" by simp
    with assms(3) s have "pre ! i = lbrace" by (simp add: nth_append)
    with \<open>i < length pre\<close> pre show False by (metis nth_mem)
  qed
  with assms(1) have gt: "length pre < j" by simp
  with assms(2) s have idx: "j - length pre - 1 < length rest" by auto
  from gt s assms(4) have "rest ! (j - length pre - 1) = rbrace"
    by (simp add: nth_append nth_Cons')
  with idx have "rbrace \<in> set rest" by (metis nth_mem)
  then obtain mid post where "rest = mid @ rbrace # post" and "rbrace \<notin> set post"
    by (auto dest: split_list_last)
  with s pre show ?thesis by blast
qed

section \<open>The conversion\<close>

lemma mapE_Inr:
  "mapE f xs = Inr ys \<Longrightarrow> length ys = length xs \<and> (\<forall>i<length xs. f (xs ! i) = Inr (ys ! i))"
proof (induction xs arbitrary: ys)
  case Nil
  then show ?case by simp
next
  case (Cons x xs)
  then show ?case
    by (auto split: sum.splits simp: nth_Cons split: nat.splits)
qed

text \<open>
  The conversion succeeds only on an object whose \<^verbatim>\<open>flaggedClauses\<close> is an array, and
  then every field of the result is read off the object's own properties.
\<close>

lemma convertResponse_Inr:
  assumes "convertResponse raw = Inr res"
  shows "\<exists>ps fcs.
           raw = JObj ps
           \<and> ownProperty ps (ascii ''flaggedClauses'') = JArr fcs
           \<and> mapE convertFlagged fcs = Inr (flaggedClauses res)
           \<and> slice05 (ownProperty ps (ascii ''recommendations'')) = Inr (recommendations res)
           \<and> summary res = ownProperty ps (ascii ''summary'')
           \<and> keyDetails res = ownProperty ps (ascii ''keyDetails'')
           \<and> overallRiskScore res = ownProperty ps (ascii ''overallRiskScore'')"
proof (cases raw)
  case (JObj ps)
  show ?thesis
  proof (cases "ownProperty ps (ascii ''flaggedClauses'')")
    case (JArr fcs)
    with assms JObj show ?thesis
      by (auto simp: convertResponse_def split: sum.splits)
  qed (use assms JObj in \<open>simp_all add: convertResponse_def\<close>)
qed (use assms in \<open>simp_all add: convertResponse_def\<close>)

lemma key_distinct:
  "ascii ''category'' \<noteq> ascii ''keywords''"
  "ascii ''severity'' \<noteq> ascii ''keywords''"
  "ascii ''severity'' \<noteq> ascii ''category''"
  by (simp_all add: ascii_def)

lemma ownProperty_update:
  "ownProperty (AList.update k v ps) k' = (if k' = k then v else ownProperty ps k')"
  by (simp add: ownProperty_def update_conv')

lemma convertFlagged_object:
  assumes "convertFlagged fc = Inr out"
      and "getField fc (ascii ''clause'') = Inr (JObj ps)"
  shows "\<exists>qs. getField out (ascii ''clause'') = Inr (JObj qs)
           \<and> ownProperty qs (ascii ''category'') = ownProperty ps (ascii ''category'')
           \<and> ownProperty qs (ascii ''severity'') = ownProperty ps (ascii ''severity'')
           \<and> ownProperty qs (ascii ''keywords'') = JArr []"
proof -
  from assms(2) obtain fps where fc: "fc = JObj fps"
    by (cases fc) auto
  let ?qs = "AList.update (ascii ''category'') (ownProperty ps (ascii ''category''))
               (AList.update (ascii ''keywords'') (JArr []) ps)"
  from assms fc have out: "out = JObj [(ascii ''clause'', JObj ?qs),
      (ascii ''matchedText'', ownProperty fps (ascii ''matchedText'')),
      (ascii ''position'', ownProperty fps (ascii ''position''))]"
    by (auto simp: convertFlagged_def)
  have "getField out (ascii ''clause'') = Inr (JObj ?qs)"
    unfolding out by (simp add: ownProperty_def)
  moreover have "ownProperty ?qs (ascii ''category'') = ownProperty ps (ascii ''category'')"
    by (simp add: ownProperty_update)
  moreover have "ownProperty ?qs (ascii ''severity'') = ownProperty ps (ascii ''severity'')"
    by (simp add: ownProperty_update key_distinct)
  moreover have "ownProperty ?qs (ascii ''keywords'') = JArr []"
    by (simp add: ownProperty_update key_distinct[symmetric])
  ultimately show ?thesis by blast
qed

text \<open>
  A flagged entry whose \<^verbatim>\<open>clause\<close> is an object always converts, and the converted
  clause has the category and the severity of the raw one. So a response whose
  flagged entries all hold object clauses is converted whenever its
  \<^verbatim>\<open>recommendations\<close> can be sliced, whatever the categories and severities are.
\<close>

lemma convertFlagged_object_clause:
  assumes "getField fc (ascii ''clause'') = Inr (JObj ps)"
  shows "\<exists>out qs. convertFlagged fc = Inr out
           \<and> getField out (ascii ''clause'') = Inr (JObj qs)
           \<and> ownProperty qs (ascii ''category'') = ownProperty ps (ascii ''category'')
           \<and> ownProperty qs (ascii ''severity'') = ownProperty ps (ascii ''severity'')
           \<and> ownProperty qs (ascii ''keywords'') = JArr []"
proof -
  from assms obtain fps where "fc = JObj fps"
    by (cases fc) auto
  with assms obtain out where out: "convertFlagged fc = Inr out"
    by (simp add: convertFlagged_def)
  from convertFlagged_object [OF out assms] out show ?thesis
    by blast
qed

lemma mapE_all_Inr:
  "\<forall>x\<in>set xs. \<exists>y. f x = Inr y \<Longrightarrow> \<exists>ys. mapE f xs = Inr ys"
proof (induction xs)
  case Nil
  then show ?case by simp
next
  case (Cons x xs)
  then obtain y ys where "f x = Inr y" and "mapE f xs = Inr ys"
    by auto
  then show ?case by simp
qed

lemma converted_clauses_keep_category_severity:
  assumes "convertResponse raw = Inr res"
  shows "\<exists>fcs. getField raw (ascii ''flaggedClauses'') = Inr (JArr fcs)
           \<and> length (flaggedClauses res) = length fcs
           \<and> (\<forall>i<length fcs. \<forall>ps.
                getField (fcs ! i) (ascii ''clause'') = Inr (JObj ps) \<longrightarrow>
                (\<exists>qs. getField (flaggedClauses res ! i) (ascii ''clause'') = Inr (JObj qs)
                   \<and> ownProperty qs (ascii ''category'') = ownProperty ps (ascii ''category'')
                   \<and> ownProperty qs (ascii ''severity'') = ownProperty ps (ascii ''severity'')))"
proof -
  from convertResponse_Inr [OF assms] obtain ps fcs where
    raw: "raw = JObj ps" and fcs: "ownProperty ps (ascii ''flaggedClauses'') = JArr fcs"
    and conv: "mapE convertFlagged fcs = Inr (flaggedClauses res)"
    by (elim exE conjE) (rule that)
  from mapE_Inr [OF conv] have len: "length (flaggedClauses res) = length fcs"
    and each: "\<forall>i<length fcs. convertFlagged (fcs ! i) = Inr (flaggedClauses res ! i)"
    by (rule conjunct1, rule conjunct2)
  have field: "getField raw (ascii ''flaggedClauses'') = Inr (JArr fcs)"
    using raw fcs by simp
  have pass: "\<forall>i<length fcs. \<forall>cl.
                getField (fcs ! i) (ascii ''clause'') = Inr (JObj cl) \<longrightarrow>
                (\<exists>qs. getField (flaggedClauses res ! i) (ascii ''clause'') = Inr (JObj qs)
                   \<and> ownProperty qs (ascii ''category'') = ownProperty cl (ascii ''category'')
                   \<and> ownProperty qs (ascii ''severity'') = ownProperty cl (ascii ''severity''))"
  proof (intro allI impI)
    fix i cl
    assume i: "i < length fcs"
      and cl: "getField (fcs ! i) (ascii ''clause'') = Inr (JObj cl)"
    from each i have "convertFlagged (fcs ! i) = Inr (flaggedClauses res ! i)"
      by simp
    from convertFlagged_object [OF this cl]
    show "\<exists>qs. getField (flaggedClauses res ! i) (ascii ''clause'') = Inr (JObj qs)
            \<and> ownProperty qs (ascii ''category'') = ownProperty cl (ascii ''category'')
            \<and> ownProperty qs (ascii ''severity'') = ownProperty cl (ascii ''severity'')"
      by (elim exE conjE) (intro exI conjI)
  qed
  from field len pass show ?thesis
    by (intro exI conjI)
qed

lemma object_clauses_never_rejected:
  assumes "getField raw (ascii ''flaggedClauses'') = Inr (JArr fcs)"
      and "\<forall>fc\<in>set fcs. \<exists>ps. getField fc (ascii ''clause'') = Inr (JObj ps)"
      and "getField raw (ascii ''recommendations'') = Inr recs"
      and "slice05 recs = Inr firstFive"
  shows "\<exists>res. convertResponse raw = Inr res
           \<and> length (flaggedClauses res) = length fcs
           \<and> (\<forall>i<length fcs. \<forall>ps.
                getField (fcs ! i) (ascii ''clause'') = Inr (JObj ps) \<longrightarrow>
                (\<exists>qs. getField (flaggedClauses res ! i) (ascii ''clause'') = Inr (JObj qs)
                   \<and> ownProperty qs (ascii ''category'') = ownProperty ps (ascii ''category'')
                   \<and> ownProperty qs (ascii ''severity'') = ownProperty ps (ascii ''severity'')))"
proof -
  have "\<forall>fc\<in>set fcs. \<exists>out. convertFlagged fc = Inr out"
  proof
    fix fc
    assume "fc \<in> set fcs"
    with assms(2) obtain ps where "getField fc (ascii ''clause'') = Inr (JObj ps)"
      by blast
    from convertFlagged_object_clause [OF this]
    show "\<exists>out. convertFlagged fc = Inr out"
      by (elim exE conjE) (rule exI)
  qed
  then obtain flagged where flagged: "mapE convertFlagged fcs = Inr flagged"
    using mapE_all_Inr by blast
  from assms(1) obtain props where raw: "raw = JObj props"
    by (cases raw) auto
  from assms(1,3,4) flagged raw obtain res where res: "convertResponse raw = Inr res"
    by (simp add: convertResponse_def)
  from converted_clauses_keep_category_severity [OF res] assms(1) res show ?thesis
    by auto
qed

text \<open>Every result of \<^verbatim>\<open>analyzeContract\<close> is the conversion of the response that
  \<^verbatim>\<open>callGeminiAPI\<close> returned for the truncated text.\<close>

lemma analyzeContract_result:
  assumes "analyzeContract env txt = (Inr res, reqs)"
  shows "\<exists>raw. callGeminiAPI env (truncatedText txt) = (Inr raw, reqs) \<and> convertResponse raw = Inr res"
  using assms by (auto simp: analyzeContract_def split: prod.splits sum.splits)

section \<open>Evaluation of the samples\<close>

lemma sample_convert:
  "convertResponse (sampleResponse score recs) =
     (case slice05 recs of
        Inl e \<Rightarrow> Inl e
      | Inr five \<Rightarrow>
          Inr \<lparr>summary = JStr (ascii ''One-year lease''), keyDetails = JArr [], flaggedClauses = [],
               overallRiskScore = score, recommendations = five\<rparr>)"
  by (cases "slice05 recs")
     (simp_all add: convertResponse_def sampleResponse_def ownProperty_def ascii_def)

lemma bogus_convertFlagged: "convertFlagged bogusFlagged = Inr bogusConverted"
  by (simp add: convertFlagged_def bogusFlagged_def bogusConverted_def ownProperty_def ascii_def)

lemma bogus_convertResponse:
  "convertResponse bogusResponse
     = Inr \<lparr>summary = JUndefined, keyDetails = JUndefined, flaggedClauses = [bogusConverted],
            overallRiskScore = JUndefined, recommendations = JArr []\<rparr>"
proof -
  have fl: "ownProperty [(ascii ''flaggedClauses'', JArr [bogusFlagged]), (ascii ''recommendations'', JArr [])]
              (ascii ''flaggedClauses'') = JArr [bogusFlagged]"
    by (simp add: ownProperty_def)
  show ?thesis
    unfolding convertResponse_def bogusResponse_def getField.simps fl
    by (simp add: bogus_convertFlagged) (simp add: ownProperty_def ascii_def)
qed

lemma offline_attempt: "attempt offlineEnv req = Inl (Error (ascii ''Failed to fetch''))"
  by (simp add: attempt_def offlineEnv_def)

lemma offline_call:
  "callGeminiAPI offlineEnv txt =
     (Inl (Error (ascii ''Failed to fetch'')), map (endpointRequest (ascii ''k'') (buildPrompt txt)) endpoints)"
proof -
  have key: "apiKey offlineEnv = Some (ascii ''k'')" "ascii ''k'' \<noteq> []"
    by (simp_all add: offlineEnv_def ascii_def)
  have "tryEndpoints offlineEnv (ascii ''k'') (buildPrompt txt) endpoints None
          = (Inl (Error (ascii ''Failed to fetch'')), map (endpointRequest (ascii ''k'') (buildPrompt txt)) endpoints)"
    by (simp add: endpoints_def offline_attempt)
  with key show ?thesis by (simp add: callGeminiAPI_def)
qed

lemma endpoints_nth:
  "endpoints = [endpoints ! 0] @ endpoints ! 1 # [endpoints ! 2]"
  by (simp add: endpoints_def)

lemma demo_urls:
  "url (endpointRequest (ascii ''k'') p (endpoints ! 0)) = demoUrl 0"
  "url (endpointRequest (ascii ''k'') p (endpoints ! 1)) = demoUrl 1"
  "url (endpointRequest (ascii ''k'') p (endpoints ! 2)) = demoUrl 2"
  "demoUrl 1 \<noteq> demoUrl 0"
  "demoUrl 2 \<noteq> demoUrl 0"
  "demoUrl 2 \<noteq> demoUrl 1"
  "url (endpointRequest (ascii ''k'') p (endpoints ! Suc 0)) = demoUrl (Suc 0)"
  "demoUrl (Suc 0) \<noteq> demoUrl 0"
  "demoUrl 2 \<noteq> demoUrl (Suc 0)"
  by (simp_all add: endpointRequest_def demoUrl_def endpoints_def ascii_def)

lemma envelope_text:
  "handleResponse env \<lparr>ok = True, status = 200, statusText = ascii ''OK'', json = Inr (envelope t)\<rparr>
     = parseResponseText env (trim t)"
  by (simp add: handleResponse_def envelopeText_def envelope_def responseText_def ownProperty_def ascii_def)

lemma trim_prose: "trim (ascii ''Here is the result:\<newline>{}\<newline>'') = ascii ''Here is the result:\<newline>{}''"
  by (simp add: trim_def isWhiteSpace_def ascii_def)

lemma trim_refusal: "trim (ascii ''I cannot analyze this.'') = ascii ''I cannot analyze this.''"
  by (simp add: trim_def isWhiteSpace_def ascii_def)

lemma prose_payload: "jsonText (ascii ''Here is the result:\<newline>{}'') = ascii ''{}''"
  by (simp add: jsonText_def ascii_def lbrace_def rbrace_def)

lemma refusal_payload: "jsonText (ascii ''I cannot analyze this.'') = ascii ''I cannot analyze this.''"
  by (simp add: jsonText_def ascii_def lbrace_def rbrace_def)

lemma prose_attempt0:
  "attempt proseEnv (endpointRequest (ascii ''k'') p (endpoints ! 0)) = Inl (Error (ascii ''Failed to fetch''))"
  by (simp add: attempt_def proseEnv_def demo_urls)

lemma prose_attempt1:
  "attempt proseEnv (endpointRequest (ascii ''k'') p (endpoints ! 1)) = Inr (JObj [])"
proof -
  have "parseResponseText proseEnv (ascii ''Here is the result:\<newline>{}'') = Inr (JObj [])"
    by (simp add: parseResponseText_def prose_payload) (simp add: proseEnv_def demoParse_def)
  then have "handleResponse proseEnv \<lparr>ok = True, status = 200, statusText = ascii ''OK'',
               json = Inr (envelope (ascii ''Here is the result:\<newline>{}\<newline>''))\<rparr> = Inr (JObj [])"
    by (simp add: envelope_text trim_prose)
  then show ?thesis
    by (simp add: attempt_def proseEnv_def demo_urls)
qed

lemma failing_attempt0:
  "attempt failingEnv (endpointRequest (ascii ''k'') p (endpoints ! 0)) = Inl (Error (ascii ''Failed to fetch''))"
  by (simp add: attempt_def failingEnv_def demo_urls)

lemma failing_attempt1:
  "isl (attempt failingEnv (endpointRequest (ascii ''k'') p (endpoints ! 1)))"
  by (simp add: attempt_def failingEnv_def demo_urls handleResponse_def)

lemma failing_attempt2:
  "attempt failingEnv (endpointRequest (ascii ''k'') p (endpoints ! 2))
     = Inl (SyntaxError (ascii ''Unexpected token''))"
proof -
  have "parseResponseText failingEnv (ascii ''I cannot analyze this.'')
          = Inl (SyntaxError (ascii ''Unexpected token''))"
    by (simp add: parseResponseText_def refusal_payload)
       (simp add: failingEnv_def demoParse_def ascii_def)
  then have "handleResponse failingEnv \<lparr>ok = True, status = 200, statusText = ascii ''OK'',
               json = Inr (envelope (ascii ''I cannot analyze this.''))\<rparr>
               = Inl (SyntaxError (ascii ''Unexpected token''))"
    by (simp add: envelope_text trim_refusal)
  then show ?thesis
    by (simp add: attempt_def failingEnv_def demo_urls)
qed

section \<open>The claims\<close>

subsection \<open>C1: no fallback when every endpoint fails\<close>

text \<open>
  Claim C1 says that \<^verbatim>\<open>analyzeContract\<close> surfaces no error when every endpoint fails
  and returns the result of the fallback analyzer instead. The function has no
  \<^verbatim>\<open>try\<close> around its call of \<^verbatim>\<open>callGeminiAPI\<close> and never calls a fallback: with the
  network unreachable it issues the three requests and rejects with the last error.
\<close>

theorem analyzeContract_rejects_when_all_endpoints_fail:
  "analyzeContract offlineEnv (ascii ''lease'')
     = (Inl (Error (ascii ''Failed to fetch'')),
        map (endpointRequest (ascii ''k'') (buildPrompt (ascii ''lease''))) endpoints)"
proof -
  have "truncatedText (ascii ''lease'') = ascii ''lease''"
    by (simp add: truncatedText_def ascii_def maxLength_def)
  then show ?thesis by (simp add: analyzeContract_def offline_call)
qed

subsection \<open>C2: the risk score\<close>

text \<open>
  Claim C2 says that the normalized \<^verbatim>\<open>overallRiskScore\<close> is clamped into [0, 100], a
  raw 150 becoming 100 and a raw -10 becoming 0. The conversion has no clamp: on a
  response with score 150 the result holds 150, and on one with -10 it holds -10.
\<close>

theorem overallRiskScore_not_clamped:
  "map_sum id overallRiskScore (convertResponse (sampleResponse (JNum 150) (JArr []))) = Inr (JNum 150)
   \<and> map_sum id overallRiskScore (convertResponse (sampleResponse (JNum 150) (JArr []))) \<noteq> Inr (JNum 100)
   \<and> map_sum id overallRiskScore (convertResponse (sampleResponse (JNum (- 10)) (JArr []))) = Inr (JNum (- 10))
   \<and> map_sum id overallRiskScore (convertResponse (sampleResponse (JNum (- 10)) (JArr []))) \<noteq> Inr (JNum 0)"
  by (simp add: sample_convert)

text \<open>
  C2 as amended: whenever the conversion returns a result, its \<^verbatim>\<open>overallRiskScore\<close> is
  the raw response's \<^verbatim>\<open>overallRiskScore\<close> property, unchanged.
\<close>

theorem overallRiskScore_copied_unchanged:
  assumes "convertResponse raw = Inr res"
  shows "getField raw (ascii ''overallRiskScore'') = Inr (overallRiskScore res)"
  using convertResponse_Inr [OF assms] by auto

text \<open>The amended C2 on a response with score 72.\<close>

theorem overallRiskScore_copied_unchanged_witness:
  "\<exists>res. convertResponse (sampleResponse (JNum 72) (JArr [])) = Inr res
      \<and> getField (sampleResponse (JNum 72) (JArr [])) (ascii ''overallRiskScore'') = Inr (overallRiskScore res)
      \<and> overallRiskScore res = JNum 72"
proof -
  obtain res where res: "convertResponse (sampleResponse (JNum 72) (JArr [])) = Inr res"
    by (simp add: sample_convert)
  have "getField (sampleResponse (JNum 72) (JArr [])) (ascii ''overallRiskScore'') = Inr (JNum 72)"
    by (simp add: sampleResponse_def ownProperty_def ascii_def)
  with overallRiskScore_copied_unchanged [OF res] res show ?thesis by auto
qed

subsection \<open>C3: category and severity\<close>

text \<open>
  Claim C3 says that a category or severity outside the enumeration is either
  rejected or coerced to \<^verbatim>\<open>other\<close> / \<^verbatim>\<open>low\<close>, never passed through. The source
  declares both fields of \<^verbatim>\<open>ClausePattern\<close> as unions of the enumerated values and
  asserts that type for the category at line 192, but checks nothing at run time:
  a clause with category \<^verbatim>\<open>bogus_category\<close> and severity \<^verbatim>\<open>extreme\<close> is accepted,
  and both values stand in the converted clause.
\<close>

theorem bogus_category_passed_through:
  "map_sum id flaggedClauses (convertResponse bogusResponse) = Inr [bogusConverted]
   \<and> getField bogusConverted (ascii ''clause'')
       = Inr (JObj [(ascii ''id'', JStr (ascii ''c1'')),
                    (ascii ''category'', JStr (ascii ''bogus_category'')),
                    (ascii ''severity'', JStr (ascii ''extreme'')),
                    (ascii ''keywords'', JArr [])])
   \<and> ascii ''bogus_category'' \<notin> set categories
   \<and> ascii ''extreme'' \<notin> set severities"
proof -
  have a: "map_sum id flaggedClauses (convertResponse bogusResponse) = Inr [bogusConverted]"
    by (simp add: bogus_convertResponse)
  have b: "getField bogusConverted (ascii ''clause'')
       = Inr (JObj [(ascii ''id'', JStr (ascii ''c1'')),
                    (ascii ''category'', JStr (ascii ''bogus_category'')),
                    (ascii ''severity'', JStr (ascii ''extreme'')),
                    (ascii ''keywords'', JArr [])])"
    by (simp add: bogusConverted_def ownProperty_def)
  have c: "ascii ''bogus_category'' \<notin> set categories"
    by (simp add: categories_def ascii_def)
  have d: "ascii ''extreme'' \<notin> set severities"
    by (simp add: severities_def ascii_def)
  from a b c d show ?thesis by blast
qed

subsection \<open>C4: first success wins\<close>

text \<open>
  Claim C4: the endpoints are attempted in order; an endpoint that fails in any way
  (transport, envelope shape, parse) makes the client advance to the next one; the
  first endpoint whose response yields a successful \<^verbatim>\<open>JSON.parse\<close> makes it return
  at once, and the later endpoints are never requested. With the API key present,
  if no endpoint before \<open>ep\<close> yields a parse and \<open>ep\<close> yields the parse \<open>v\<close>, then
  \<^verbatim>\<open>callGeminiAPI\<close> returns \<open>v\<close> and the requests issued are exactly those for the
  endpoints up to \<open>ep\<close>, in order.
\<close>

theorem first_success_wins:
  assumes "apiKey env = Some k" and "k \<noteq> []"
      and "endpoints = failed @ ep # later"
      and "\<forall>e\<in>set failed. \<forall>v. \<not> spec_yieldsParse env (endpointRequest k (buildPrompt txt) e) v"
      and "spec_yieldsParse env (endpointRequest k (buildPrompt txt) ep) v"
  shows "callGeminiAPI env txt
           = (Inr v, map (endpointRequest k (buildPrompt txt)) (failed @ [ep]))"
proof -
  from assms(4) have failed: "\<forall>e\<in>set failed. isl (attempt env (endpointRequest k (buildPrompt txt) e))"
    by (simp add: attempt_fails_iff)
  from assms(5) have ok: "attempt env (endpointRequest k (buildPrompt txt) ep) = Inr v"
    by (simp add: attempt_iff)
  have "callGeminiAPI env txt = tryEndpoints env k (buildPrompt txt) (failed @ ep # later) None"
    using assms(1,2,3) by (simp add: callGeminiAPI_def)
  also have "\<dots> = (Inr v, map (endpointRequest k (buildPrompt txt)) (failed @ [ep]))"
    using failed ok by (rule tryEndpoints_first_success)
  finally show ?thesis .
qed

text \<open>
  C4 on the specification's example: the first endpoint is unreachable, the second
  answers with JSON wrapped in prose, the third is never requested.
\<close>

theorem first_success_wins_witness:
  "callGeminiAPI proseEnv (ascii ''lease'')
     = (Inr (JObj []),
        [endpointRequest (ascii ''k'') (buildPrompt (ascii ''lease'')) (endpoints ! 0),
         endpointRequest (ascii ''k'') (buildPrompt (ascii ''lease'')) (endpoints ! 1)])"
proof -
  let ?req = "endpointRequest (ascii ''k'') (buildPrompt (ascii ''lease''))"
  have k: "apiKey proseEnv = Some (ascii ''k'')"
    by (simp add: proseEnv_def)
  have ne: "ascii ''k'' \<noteq> []"
    by (simp add: ascii_def)
  have "fetch proseEnv (?req (endpoints ! 0)) = Inl (ThrowError (Error (ascii ''Failed to fetch'')))"
    by (simp add: proseEnv_def demo_urls)
  then have failed: "\<forall>e\<in>set [endpoints ! 0]. \<forall>v. \<not> spec_yieldsParse proseEnv (?req e) v"
    by (simp add: spec_yieldsParse_def)
  have answer: "fetch proseEnv (?req (endpoints ! 1))
      = Inr \<lparr>ok = True, status = 200, statusText = ascii ''OK'',
             json = Inr (envelope (ascii ''Here is the result:\<newline>{}\<newline>''))\<rparr>"
    by (simp add: proseEnv_def demo_urls)
  have shape: "spec_envelope (envelope (ascii ''Here is the result:\<newline>{}\<newline>''))
                 (ascii ''Here is the result:\<newline>{}\<newline>'')"
    by (simp add: spec_envelope_def envelope_def ownProperty_def ascii_def)
  have parse: "jsonParse proseEnv (jsonText (trim (ascii ''Here is the result:\<newline>{}\<newline>''))) = Inr (JObj [])"
    by (simp add: trim_prose prose_payload) (simp add: proseEnv_def demoParse_def)
  have success: "spec_yieldsParse proseEnv (?req (endpoints ! 1)) (JObj [])"
    by (rule spec_yieldsParseI [OF answer _ _ shape parse]) simp_all
  from first_success_wins [OF k ne endpoints_nth failed success]
  show ?thesis by simp
qed

subsection \<open>C5: truncation\<close>

text \<open>
  Claim C5: a text of at most 50,000 code units is passed on verbatim; a longer one
  is passed on as its first 50,000 code units followed by the truncation marker, so
  its length is the threshold plus the marker's length. What is passed on is what
  \<^verbatim>\<open>callGeminiAPI\<close> is called with, and every request it issues carries the prompt
  built from it.
\<close>

theorem truncation_policy:
  "(length txt \<le> maxLength \<longrightarrow> truncatedText txt = txt)
   \<and> (maxLength < length txt \<longrightarrow>
        truncatedText txt = take maxLength txt @ truncationMarker
        \<and> length (truncatedText txt) = maxLength + length truncationMarker)
   \<and> maxLength = 50000
   \<and> snd (analyzeContract env txt) = snd (callGeminiAPI env (truncatedText txt))
   \<and> (\<forall>req\<in>set (snd (analyzeContract env txt)). promptText req = buildPrompt (truncatedText txt))"
proof -
  have short: "length txt \<le> maxLength \<longrightarrow> truncatedText txt = txt"
    by (simp add: truncatedText_def)
  have long: "maxLength < length txt \<longrightarrow>
        truncatedText txt = take maxLength txt @ truncationMarker
        \<and> length (truncatedText txt) = maxLength + length truncationMarker"
    by (simp add: truncatedText_def)
  have passed: "\<forall>req\<in>set (snd (analyzeContract env txt)). promptText req = buildPrompt (truncatedText txt)"
    by (simp add: analyzeContract_requests callGeminiAPI_prompt)
  show ?thesis
    using short long passed analyzeContract_requests by (simp add: maxLength_def)
qed

text \<open>C5 on a short text and on a text of 50,001 code units.\<close>

theorem truncation_policy_witness:
  "truncatedText (ascii ''lease'') = ascii ''lease''
   \<and> truncatedText (replicate 50001 97) = replicate 50000 97 @ truncationMarker
   \<and> length (truncatedText (replicate 50001 97)) = 50044
   \<and> map promptText (snd (analyzeContract offlineEnv (replicate 50001 97)))
       = replicate 3 (buildPrompt (replicate 50000 97 @ truncationMarker))"
proof -
  note short = truncation_policy [of "ascii ''lease''" offlineEnv]
  note long = truncation_policy [of "replicate 50001 97" offlineEnv]
  have m: "maxLength = 50000"
    using long by blast
  have len: "length truncationMarker = 44"
    by (simp add: truncationMarker_def ascii_def)
  have a: "truncatedText (ascii ''lease'') = ascii ''lease''"
    using short m by (simp add: ascii_def)
  have b: "truncatedText (replicate 50001 97) = replicate 50000 97 @ truncationMarker"
    using long m by simp
  have c: "length (truncatedText (replicate 50001 97)) = 50044"
    using long m len by simp
  have "snd (analyzeContract offlineEnv (replicate 50001 97))
          = snd (callGeminiAPI offlineEnv (truncatedText (replicate 50001 97)))"
    using long by blast
  then have d: "map promptText (snd (analyzeContract offlineEnv (replicate 50001 97)))
       = replicate 3 (buildPrompt (replicate 50000 97 @ truncationMarker))"
    by (simp add: b offline_call endpoints_def endpointRequest_def numeral_3_eq_3)
  from a b c d show ?thesis by blast
qed

subsection \<open>C6: extraction of the payload\<close>

text \<open>
  Claim C6 says that the extraction selects the first brace-delimited JSON object in
  the response text. The regular expression is greedy: on a text holding two
  objects it selects everything from the first \<^verbatim>\<open>{\<close> to the last \<^verbatim>\<open>}\<close>, which is not
  the first object, and the parse fails where the parse of the first object
  succeeds.
\<close>

theorem greedy_match_is_not_first_object:
  "jsonText (ascii ''{} {}'') = ascii ''{} {}''
   \<and> spec_firstBraceObject (ascii ''{} {}'') = Some (ascii ''{}'')
   \<and> matchBraces (ascii ''{} {}'') \<noteq> spec_firstBraceObject (ascii ''{} {}'')
   \<and> parseResponseText proseEnv (ascii ''{} {}'') = Inl (SyntaxError (ascii ''Unexpected token''))
   \<and> jsonParse proseEnv (ascii ''{}'') = Inr (JObj [])"
  by (simp add: jsonText_def parseResponseText_def proseEnv_def demoParse_def ascii_def
        lbrace_def rbrace_def)

text \<open>
  C6 as amended: when the text holds a \<^verbatim>\<open>{\<close> followed later by a \<^verbatim>\<open>}\<close>, the payload
  is the text from its first \<^verbatim>\<open>{\<close> to its last \<^verbatim>\<open>}\<close> and that is what is parsed;
  when it holds no such pair, the text itself is parsed. The two cases cover every
  text: one that holds such a pair splits at its first \<^verbatim>\<open>{\<close> and its last \<^verbatim>\<open>}\<close>.
\<close>

theorem payload_first_to_last_brace:
  "(\<forall>pre mid post.
       s = pre @ lbrace # mid @ rbrace # post \<and> lbrace \<notin> set pre \<and> rbrace \<notin> set post \<longrightarrow>
       jsonText s = lbrace # mid @ [rbrace]
       \<and> parseResponseText env s
           = (case jsonParse env (lbrace # mid @ [rbrace]) of
                Inl m \<Rightarrow> Inl (SyntaxError m) | Inr v \<Rightarrow> Inr v))
   \<and> (\<not> (\<exists>i j. i < j \<and> j < length s \<and> s ! i = lbrace \<and> s ! j = rbrace) \<longrightarrow>
       jsonText s = s
       \<and> parseResponseText env s
           = (case jsonParse env s of Inl m \<Rightarrow> Inl (SyntaxError m) | Inr v \<Rightarrow> Inr v))
   \<and> ((\<exists>i j. i < j \<and> j < length s \<and> s ! i = lbrace \<and> s ! j = rbrace) \<longrightarrow>
       (\<exists>pre mid post.
          s = pre @ lbrace # mid @ rbrace # post \<and> lbrace \<notin> set pre \<and> rbrace \<notin> set post))"
proof (intro conjI allI impI)
  fix pre mid post
  assume "s = pre @ lbrace # mid @ rbrace # post \<and> lbrace \<notin> set pre \<and> rbrace \<notin> set post"
  then have m: "matchBraces s = Some (lbrace # mid @ [rbrace])"
    by (simp add: matchBraces_first_last)
  then show "jsonText s = lbrace # mid @ [rbrace]"
    by (simp add: jsonText_def)
  with m show "parseResponseText env s
           = (case jsonParse env (lbrace # mid @ [rbrace]) of
                Inl m \<Rightarrow> Inl (SyntaxError m) | Inr v \<Rightarrow> Inr v)"
    by (simp add: parseResponseText_def)
next
  assume "\<not> (\<exists>i j. i < j \<and> j < length s \<and> s ! i = lbrace \<and> s ! j = rbrace)"
  then have m: "matchBraces s = None"
    by (rule matchBraces_none)
  then show "jsonText s = s"
    by (simp add: jsonText_def)
  then show "parseResponseText env s
           = (case jsonParse env s of Inl m \<Rightarrow> Inl (SyntaxError m) | Inr v \<Rightarrow> Inr v)"
    by (simp add: parseResponseText_def)
next
  assume "\<exists>i j. i < j \<and> j < length s \<and> s ! i = lbrace \<and> s ! j = rbrace"
  then obtain i j where "i < j" "j < length s" "s ! i = lbrace" "s ! j = rbrace"
    by blast
  then show "\<exists>pre mid post.
          s = pre @ lbrace # mid @ rbrace # post \<and> lbrace \<notin> set pre \<and> rbrace \<notin> set post"
    by (rule brace_pair_split)
qed

text \<open>The amended C6 on a text with two objects in prose and on a text without braces.\<close>

theorem payload_first_to_last_brace_witness:
  "jsonText (ascii ''Result: {} or {} done'') = ascii ''{} or {}''
   \<and> parseResponseText proseEnv (ascii ''Result: {} or {} done'')
       = Inl (SyntaxError (ascii ''Unexpected token''))
   \<and> jsonText (ascii ''no object'') = ascii ''no object''
   \<and> parseResponseText proseEnv (ascii ''no object'') = Inl (SyntaxError (ascii ''Unexpected token''))"
proof -
  have split: "ascii ''Result: {} or {} done''
                 = ascii ''Result: '' @ lbrace # ascii ''} or {'' @ rbrace # ascii '' done''"
    by (simp add: ascii_def lbrace_def rbrace_def)
  have pre: "lbrace \<notin> set (ascii ''Result: '')"
    by (simp add: ascii_def lbrace_def)
  have post: "rbrace \<notin> set (ascii '' done'')"
    by (simp add: ascii_def rbrace_def)
  have whole: "lbrace # ascii ''} or {'' @ [rbrace] = ascii ''{} or {}''"
    by (simp add: ascii_def lbrace_def rbrace_def)
  have none: "\<not> (\<exists>i j. i < j \<and> j < length (ascii ''no object'')
                 \<and> ascii ''no object'' ! i = lbrace \<and> ascii ''no object'' ! j = rbrace)"
    by (rule no_rbrace_no_pair) (simp add: ascii_def rbrace_def)
  have p1: "jsonParse proseEnv (ascii ''{} or {}'') = Inl (ascii ''Unexpected token'')"
    by (simp add: proseEnv_def demoParse_def ascii_def)
  have p2: "jsonParse proseEnv (ascii ''no object'') = Inl (ascii ''Unexpected token'')"
    by (simp add: proseEnv_def demoParse_def ascii_def)
  note first = payload_first_to_last_brace [of "ascii ''Result: {} or {} done''" proseEnv,
      THEN conjunct1, rule_format, of "ascii ''Result: ''" "ascii ''} or {''" "ascii '' done''"]
  note second = payload_first_to_last_brace [of "ascii ''no object''" proseEnv,
      THEN conjunct2, THEN conjunct1, rule_format, OF none]
  from first split pre post have
    a: "jsonText (ascii ''Result: {} or {} done'') = lbrace # ascii ''} or {'' @ [rbrace]"
    and b: "parseResponseText proseEnv (ascii ''Result: {} or {} done'')
       = (case jsonParse proseEnv (lbrace # ascii ''} or {'' @ [rbrace]) of
                Inl m \<Rightarrow> Inl (SyntaxError m) | Inr v \<Rightarrow> Inr v)"
    by blast+
  from a b second show ?thesis
    by (simp add: whole p1 p2)
qed

subsection \<open>C7: exhaustion\<close>

text \<open>
  Claim C7: when every endpoint fails, \<^verbatim>\<open>callGeminiAPI\<close> fails once, with the last
  error observed, and no error reaches the caller before all endpoints were tried.
  With the API key present: if every pass fails, the call fails with the error of
  the pass for the last endpoint after requesting every endpoint in order; and
  whenever the call fails, every pass failed and every endpoint was requested. The
  failure is the \<^verbatim>\<open>throw lastError\<close> of line 175; the source has no error class of its
  own for it.
\<close>

theorem exhaustion_throws_last_error:
  assumes "apiKey env = Some k" and "k \<noteq> []"
  shows "((\<forall>e\<in>set endpoints. isl (attempt env (endpointRequest k (buildPrompt txt) e))) \<longrightarrow>
            (\<exists>err. attempt env (endpointRequest k (buildPrompt txt) (last endpoints)) = Inl err
               \<and> callGeminiAPI env txt
                    = (Inl err, map (endpointRequest k (buildPrompt txt)) endpoints)))
         \<and> (isl (fst (callGeminiAPI env txt)) \<longrightarrow>
              (\<forall>e\<in>set endpoints. isl (attempt env (endpointRequest k (buildPrompt txt) e)))
              \<and> snd (callGeminiAPI env txt) = map (endpointRequest k (buildPrompt txt)) endpoints)"
proof -
  let ?p = "buildPrompt txt"
  have call: "callGeminiAPI env txt = tryEndpoints env k ?p endpoints None"
    using assms by (simp add: callGeminiAPI_def)
  have ne: "endpoints \<noteq> []" by (simp add: endpoints_def)
  have fwd: "\<exists>err. attempt env (endpointRequest k ?p (last endpoints)) = Inl err
               \<and> callGeminiAPI env txt = (Inl err, map (endpointRequest k ?p) endpoints)"
    if all: "\<forall>e\<in>set endpoints. isl (attempt env (endpointRequest k ?p e))"
  proof -
    from ne all have "isl (attempt env (endpointRequest k ?p (last endpoints)))" by simp
    then obtain err where err: "attempt env (endpointRequest k ?p (last endpoints)) = Inl err"
      by (auto simp: isl_def)
    with tryEndpoints_all_fail [OF all, of None] ne call show ?thesis by simp
  qed
  have bwd: "(\<forall>e\<in>set endpoints. isl (attempt env (endpointRequest k ?p e)))
              \<and> snd (callGeminiAPI env txt) = map (endpointRequest k ?p) endpoints"
    if "isl (fst (callGeminiAPI env txt))"
  proof -
    from that obtain err reqs where "tryEndpoints env k ?p endpoints None = (Inl err, reqs)"
      using call by (cases "tryEndpoints env k ?p endpoints None") (auto simp: isl_def)
    from tryEndpoints_Inl [OF this] this call show ?thesis by simp
  qed
  from fwd bwd show ?thesis by blast
qed

text \<open>
  C7 where the endpoints fail in three ways (unreachable, status 503, no JSON in the
  answer): the error thrown is the \<^verbatim>\<open>SyntaxError\<close> of the third.
\<close>

theorem exhaustion_throws_last_error_witness:
  "callGeminiAPI failingEnv (ascii ''lease'')
     = (Inl (SyntaxError (ascii ''Unexpected token'')),
        map (endpointRequest (ascii ''k'') (buildPrompt (ascii ''lease''))) endpoints)"
proof -
  let ?req = "endpointRequest (ascii ''k'') (buildPrompt (ascii ''lease''))"
  have k: "apiKey failingEnv = Some (ascii ''k'')"
    by (simp add: failingEnv_def)
  have ne: "ascii ''k'' \<noteq> []"
    by (simp add: ascii_def)
  have "set endpoints = {endpoints ! 0, endpoints ! 1, endpoints ! 2}"
    by (subst endpoints_nth) auto
  then have all: "\<forall>e\<in>set endpoints. isl (attempt failingEnv (?req e))"
    using failing_attempt0 failing_attempt1 failing_attempt2 by (simp del: One_nat_def)
  have last: "last endpoints = endpoints ! 2"
    by (simp add: endpoints_def)
  from exhaustion_throws_last_error [OF k ne, of "ascii ''lease''", THEN conjunct1, THEN mp, OF all]
  obtain err where "attempt failingEnv (?req (last endpoints)) = Inl err"
    and "callGeminiAPI failingEnv (ascii ''lease'') = (Inl err, map ?req endpoints)"
    by (elim exE conjE) (rule that)
  then show ?thesis
    by (simp add: last failing_attempt2)
qed

subsection \<open>C8: required fields\<close>

text \<open>
  Claim C8 says that a response without \<^verbatim>\<open>summary\<close> or \<^verbatim>\<open>overallRiskScore\<close> is
  rejected, and that present values are coerced (a numeric string to an integer).
  The conversion checks neither field: a response with neither is converted, both
  fields \<^verbatim>\<open>undefined\<close>, and the score \<^verbatim>\<open>"85"\<close> stays the string \<^verbatim>\<open>"85"\<close>.
\<close>

theorem missing_summary_not_rejected:
  "convertResponse bareResponse
     = Inr \<lparr>summary = JUndefined, keyDetails = JUndefined, flaggedClauses = [],
            overallRiskScore = JUndefined, recommendations = JArr []\<rparr>
   \<and> map_sum id overallRiskScore (convertResponse (sampleResponse (JStr (ascii ''85'')) (JArr [])))
       = Inr (JStr (ascii ''85''))"
  by (simp add: sample_convert) (simp add: convertResponse_def bareResponse_def ownProperty_def ascii_def)

text \<open>
  C8 as amended: the conversion returns a result whenever \<^verbatim>\<open>flaggedClauses\<close> is an
  array whose entries convert and \<^verbatim>\<open>recommendations\<close> can be sliced; \<^verbatim>\<open>summary\<close>,
  \<^verbatim>\<open>keyDetails\<close> and \<^verbatim>\<open>overallRiskScore\<close> of the result are the response's own
  properties as they are, \<^verbatim>\<open>undefined\<close> when missing.
\<close>

theorem summary_and_score_not_required:
  assumes "getField raw (ascii ''flaggedClauses'') = Inr (JArr fcs)"
      and "mapE convertFlagged fcs = Inr flagged"
      and "getField raw (ascii ''recommendations'') = Inr recs"
      and "slice05 recs = Inr firstFive"
  shows "\<exists>ps. raw = JObj ps
           \<and> convertResponse raw
               = Inr \<lparr>summary = ownProperty ps (ascii ''summary''),
                      keyDetails = ownProperty ps (ascii ''keyDetails''),
                      flaggedClauses = flagged,
                      overallRiskScore = ownProperty ps (ascii ''overallRiskScore''),
                      recommendations = firstFive\<rparr>"
  using assms by (cases raw) (simp_all add: convertResponse_def)

text \<open>The amended C8 on a response that has only flagged clauses and recommendations.\<close>

theorem summary_and_score_not_required_witness:
  "convertResponse bogusResponse
     = Inr \<lparr>summary = JUndefined, keyDetails = JUndefined, flaggedClauses = [bogusConverted],
            overallRiskScore = JUndefined, recommendations = JArr []\<rparr>"
proof -
  have a: "getField bogusResponse (ascii ''flaggedClauses'') = Inr (JArr [bogusFlagged])"
    by (simp add: bogusResponse_def ownProperty_def)
  have b: "mapE convertFlagged [bogusFlagged] = Inr [bogusConverted]"
    by (simp add: bogus_convertFlagged)
  have c: "getField bogusResponse (ascii ''recommendations'') = Inr (JArr [])"
    by (simp add: bogusResponse_def ownProperty_def ascii_def)
  have d: "slice05 (JArr [] :: int jsval) = Inr (JArr [])"
    by simp
  from summary_and_score_not_required [OF a b c d]
  show ?thesis
    by (auto simp: bogusResponse_def ownProperty_def ascii_def)
qed

subsection \<open>C9: recommendations\<close>

text \<open>
  Claim C9: the normalized recommendations are the first \<open>min 5 n\<close> entries of the raw
  list of length \<open>n\<close>, in order: whenever the conversion returns a result for a
  response whose \<^verbatim>\<open>recommendations\<close> is an array, the result holds its first five
  entries, or all of them when there are fewer.
\<close>

theorem recommendations_first_five:
  assumes "convertResponse raw = Inr res"
      and "getField raw (ascii ''recommendations'') = Inr (JArr rs)"
  shows "recommendations res = JArr (take 5 rs) \<and> length (take 5 rs) = min 5 (length rs)"
  using convertResponse_Inr [OF assms(1)] assms(2) by auto

text \<open>C9 on a response with eight recommendations: the first five are kept, in order.\<close>

theorem recommendations_first_five_witness:
  "\<exists>res. convertResponse (sampleResponse (JNum 40) (JArr eightRecs)) = Inr res
      \<and> recommendations res
          = JArr [JStr (ascii ''r1''), JStr (ascii ''r2''), JStr (ascii ''r3''), JStr (ascii ''r4''),
                  JStr (ascii ''r5'')]"
proof -
  obtain res where res: "convertResponse (sampleResponse (JNum 40) (JArr eightRecs)) = Inr res"
    by (simp add: sample_convert)
  have recs: "getField (sampleResponse (JNum 40) (JArr eightRecs)) (ascii ''recommendations'')
                = Inr (JArr eightRecs)"
    by (simp add: sampleResponse_def ownProperty_def ascii_def)
  from recommendations_first_five [OF res recs]
  have "recommendations res = JArr (take 5 eightRecs)" by simp
  then have "recommendations res
          = JArr [JStr (ascii ''r1''), JStr (ascii ''r2''), JStr (ascii ''r3''), JStr (ascii ''r4''),
                  JStr (ascii ''r5'')]"
    by (simp add: eightRecs_def)
  with res show ?thesis by blast
qed

subsection \<open>C10: missing API key\<close>

text \<open>
  Claim C10: without the API key (\<^verbatim>\<open>undefined\<close> or the empty string) the remote path
  fails at once with the configuration error and issues no request, and
  \<^verbatim>\<open>analyzeContract\<close> fails with that error instead of falling back.
\<close>

theorem missing_key_fails_fast:
  assumes "apiKey env = None \<or> apiKey env = Some []"
  shows "callGeminiAPI env txt = (Inl configMissing, [])
         \<and> analyzeContract env txt = (Inl configMissing, [])"
  using assms by (auto simp: callGeminiAPI_def analyzeContract_def)

text \<open>
  C10 in an environment whose endpoints would answer: with the key removed, or
  empty, no request is made.
\<close>

theorem missing_key_fails_fast_witness:
  "callGeminiAPI (proseEnv\<lparr>apiKey := None\<rparr>) (ascii ''lease'') = (Inl configMissing, [])
   \<and> analyzeContract (proseEnv\<lparr>apiKey := None\<rparr>) (ascii ''lease'') = (Inl configMissing, [])
   \<and> analyzeContract (proseEnv\<lparr>apiKey := Some []\<rparr>) (ascii ''lease'') = (Inl configMissing, [])"
  using missing_key_fails_fast [of "proseEnv\<lparr>apiKey := None\<rparr>" "ascii ''lease''"]
        missing_key_fails_fast [of "proseEnv\<lparr>apiKey := Some []\<rparr>" "ascii ''lease''"]
  by simp

end
